theory Spec2Isabelle
  imports
    Complex_Main
    "HOL-Library.Sublist"
    "HOL-Library.Char_ord"
    "HOL-Library.List_Lexorder"
begin

section \<open>Data model\<close>

text \<open>
  The dashboard (\<^verbatim>\<open>src/streamlit.py\<close>) works on pandas data frames read from CSV files.
  A data frame is a list of column labels and a list of rows; every row carries the index
  label that \<^verbatim>\<open>read_csv\<close> gave it, and boolean indexing keeps that label.

  The columns the dashboard reads are typed the way \<^verbatim>\<open>read_csv\<close> types them: text columns
  hold strings, numeric columns hold finite numbers, and an absent cell (pandas' NaN) is
  \<open>None\<close>. A cell's number is the exact value of the float64 number read from the file; a
  column that pandas reads as int64 (all cells whole numbers, none absent) is covered while
  its numbers are float64 numbers too, as all whole numbers up to \<open>2 ^ 53\<close> are.
  Comparisons between such numbers are exact; the arithmetic pandas does on them in 64 bits
  is not (it rounds, and wraps on integer columns), so it is a parameter of the model, below.
  A row keeps every field whether or not the frame has the column; what decides
  \<^verbatim>\<open>col in df.columns\<close> is the frame's list of labels.
\<close>

record row =
  idx :: nat
  Plant_name :: "string option"
  Owner :: "string option"
  Country_Area_x :: "string option"
  capacity :: "rat option"
  latitude :: "rat option"
  longitude :: "rat option"
  latitude_left :: "rat option"
  longitude_left :: "rat option"
  env_value :: "rat option"

record 'r dataframe =
  columns :: "string list"
  rows :: "'r list"

datatype error = KeyError string | ValueError | NameError | StreamlitAPIException

definition capcol :: string where
  "capcol = ''Nominal crude steel capacity (ttpa)''"

definition country_col :: string where
  "country_col = ''Country/Area_x''"

definition owner_col :: string where
  "owner_col = ''Owner''"

subsection \<open>The pandas operations the dashboard uses\<close>

text \<open>\<^verbatim>\<open>df[col]\<close>: the column as a series, \<^verbatim>\<open>KeyError\<close> when the frame has no such label.
  The field that holds the column's cells is passed with the label.\<close>

definition getitem :: "'r dataframe \<Rightarrow> string \<Rightarrow> ('r \<Rightarrow> 'c) \<Rightarrow> error + 'c list" where
  "getitem df col field =
     (if col \<in> set (columns df) then Inr (map field (rows df)) else Inl (KeyError col))"

text \<open>\<^verbatim>\<open>series == v\<close>, \<^verbatim>\<open>series >= k\<close>, \<^verbatim>\<open>series <= k\<close>, \<^verbatim>\<open>series > k\<close>: element-wise
  comparisons; every comparison with NaN is False.\<close>

definition series_eq :: "'c option list \<Rightarrow> 'c \<Rightarrow> bool list" where
  "series_eq s v = map (\<lambda>c. case c of None \<Rightarrow> False | Some x \<Rightarrow> x = v) s"

definition series_ge :: "rat option list \<Rightarrow> rat \<Rightarrow> bool list" where
  "series_ge s k = map (\<lambda>c. case c of None \<Rightarrow> False | Some x \<Rightarrow> k \<le> x) s"

definition series_le :: "rat option list \<Rightarrow> rat \<Rightarrow> bool list" where
  "series_le s k = map (\<lambda>c. case c of None \<Rightarrow> False | Some x \<Rightarrow> x \<le> k) s"

text \<open>What 64-bit arithmetic returns: a finite number, an infinity, or NaN.\<close>

datatype float64 = Finite rat | PlusInf | MinusInf | NaN

text \<open>\<^verbatim>\<open>series > q\<close> for a threshold \<open>q\<close> that pandas computed.\<close>

definition series_gt :: "rat option list \<Rightarrow> float64 \<Rightarrow> bool list" where
  "series_gt s q =
     map (\<lambda>c. case c of
                None \<Rightarrow> False
              | Some x \<Rightarrow>
                  (case q of Finite y \<Rightarrow> y < x | MinusInf \<Rightarrow> True | PlusInf \<Rightarrow> False
                   | NaN \<Rightarrow> False)) s"

text \<open>\<^verbatim>\<open>mask1 & mask2\<close>.\<close>

definition mask_and :: "bool list \<Rightarrow> bool list \<Rightarrow> bool list" where
  "mask_and m1 m2 = map (\<lambda>(a, b). a \<and> b) (zip m1 m2)"

text \<open>\<^verbatim>\<open>df[mask]\<close>: a new frame with the same columns and the rows whose mask entry is
  True, in their order.\<close>

definition boolean_index :: "'r dataframe \<Rightarrow> bool list \<Rightarrow> 'r dataframe" where
  "boolean_index df msk = df\<lparr>rows := map fst (filter snd (zip (rows df) msk))\<rparr>"

text \<open>\<^verbatim>\<open>df.copy()\<close>: a frame with the same content.\<close>

definition copy :: "'r dataframe \<Rightarrow> 'r dataframe" where
  "copy df = \<lparr>columns = columns df, rows = rows df\<rparr>"

text \<open>\<^verbatim>\<open>series.dropna()\<close>.\<close>

definition dropna :: "'c option list \<Rightarrow> 'c list" where
  "dropna s = concat (map (\<lambda>c. case c of None \<Rightarrow> [] | Some x \<Rightarrow> [x]) s)"

text \<open>\<^verbatim>\<open>series.unique()\<close> keeps the first occurrence of every value, in order of appearance;
  \<^verbatim>\<open>series.nunique()\<close> counts the distinct values that are not NaN.\<close>

definition unique :: "'c list \<Rightarrow> 'c list" where
  "unique s = rev (remdups (rev s))"

definition nunique :: "'c option list \<Rightarrow> nat" where
  "nunique s = length (unique (dropna s))"

text \<open>
  The arithmetic of pandas and numpy is a parameter of the model: what \<^verbatim>\<open>sum\<close> and \<^verbatim>\<open>mean\<close>
  return for a column that holds a value, and what numpy's interpolation returns between
  two neighbouring values \<open>a\<close> and \<open>b\<close> at the fraction \<open>t\<close>. Nothing is assumed of their
  rounding, overflow or wrap-around.
\<close>

record numpy =
  np_sum :: "rat option list \<Rightarrow> float64"
  np_mean :: "rat option list \<Rightarrow> float64"
  np_lerp :: "rat \<Rightarrow> rat \<Rightarrow> rat \<Rightarrow> float64"

text \<open>\<^verbatim>\<open>series.sum()\<close> and \<^verbatim>\<open>series.mean()\<close> skip NaN cells: for a column with no value the
  sum is 0 and the mean is NaN.\<close>

definition series_sum :: "numpy \<Rightarrow> rat option list \<Rightarrow> float64" where
  "series_sum np s = (if dropna s = [] then Finite 0 else np_sum np s)"

definition series_mean :: "numpy \<Rightarrow> rat option list \<Rightarrow> float64" where
  "series_mean np s = (if dropna s = [] then NaN else np_mean np s)"

text \<open>\<^verbatim>\<open>series.max()\<close> and \<^verbatim>\<open>series.min()\<close> skip NaN cells and compare only; of no value they
  are NaN (\<open>None\<close>).\<close>

definition series_max :: "rat option list \<Rightarrow> rat option" where
  "series_max s = (case dropna s of [] \<Rightarrow> None | x # xs \<Rightarrow> Some (fold max xs x))"

definition series_min :: "rat option list \<Rightarrow> rat option" where
  "series_min s = (case dropna s of [] \<Rightarrow> None | x # xs \<Rightarrow> Some (fold min xs x))"

text \<open>\<^verbatim>\<open>series.quantile(q)\<close> with pandas' default linear interpolation: the NaN cells are
  dropped; with \<open>n\<close> values left, in ascending order, the result lies at the fractional
  position \<open>q * (n - 1)\<close>: numpy interpolates between the value at the position below and
  the one above (the last value when there is none above). No value left gives NaN.
  The dashboard calls it with \<open>q = 0.75\<close> only (pandas rejects a \<open>q\<close> outside 0 to 1).\<close>

definition quantile :: "numpy \<Rightarrow> rat option list \<Rightarrow> rat \<Rightarrow> float64" where
  "quantile np s q =
     (let xs = sort (dropna s); n = length xs in
      if n = 0 then NaN
      else
        (let h = of_nat (n - 1) * q;
             lo = min (nat \<lfloor>h\<rfloor>) (n - 1);
             hi = min (Suc lo) (n - 1)
         in np_lerp np (xs ! lo) (xs ! hi) (h - of_int \<lfloor>h\<rfloor>)))"

text \<open>\<^verbatim>\<open>df.head(n)\<close> and \<^verbatim>\<open>df.empty\<close> (an axis of length 0).\<close>

definition head :: "'r dataframe \<Rightarrow> nat \<Rightarrow> 'r dataframe" where
  "head df n = df\<lparr>rows := take n (rows df)\<rparr>"

definition df_empty :: "'r dataframe \<Rightarrow> bool" where
  "df_empty df = (rows df = [] \<or> columns df = [])"


text \<open>Python's \<^verbatim>\<open>int(x)\<close> on a float truncates towards zero.\<close>

definition py_int :: "rat \<Rightarrow> int" where
  "py_int x = (if 0 \<le> x then \<lfloor>x\<rfloor> else \<lceil>x\<rceil>)"

section \<open>The filter of \<^verbatim>\<open>main\<close> (lines 330 to 339)\<close>

text \<open>
  \<^verbatim>\<open>
  filtered_df = df.copy()
  if selected_country != 'All':
      filtered_df = filtered_df[filtered_df['Country/Area_x'] == selected_country]
  if selected_company != 'All':
      filtered_df = filtered_df[filtered_df['Owner'] == selected_company]
  filtered_df = filtered_df[
      (filtered_df[capcol] >= capacity_range[0]) &
      (filtered_df[capcol] <= capacity_range[1])
  ] if capcol in filtered_df.columns else filtered_df
  \<close>
  Each of the three statements is a function of its own; \<open>filtering_logic\<close> chains them
  as \<^verbatim>\<open>main\<close> does. A \<^verbatim>\<open>KeyError\<close> of a step ends the chain.
\<close>

definition country_filter :: "row dataframe \<Rightarrow> string \<Rightarrow> error + row dataframe" where
  "country_filter filtered_df selected_country =
     (if selected_country \<noteq> ''All'' then
        (case getitem filtered_df country_col Country_Area_x of
           Inl e \<Rightarrow> Inl e
         | Inr s \<Rightarrow> Inr (boolean_index filtered_df (series_eq s selected_country)))
      else Inr filtered_df)"

definition company_filter :: "row dataframe \<Rightarrow> string \<Rightarrow> error + row dataframe" where
  "company_filter filtered_df selected_company =
     (if selected_company \<noteq> ''All'' then
        (case getitem filtered_df owner_col Owner of
           Inl e \<Rightarrow> Inl e
         | Inr s \<Rightarrow> Inr (boolean_index filtered_df (series_eq s selected_company)))
      else Inr filtered_df)"

definition capacity_filter :: "row dataframe \<Rightarrow> rat \<times> rat \<Rightarrow> row dataframe" where
  "capacity_filter filtered_df capacity_range =
     (if capcol \<in> set (columns filtered_df) then
        boolean_index filtered_df
          (mask_and (series_ge (map capacity (rows filtered_df)) (fst capacity_range))
                    (series_le (map capacity (rows filtered_df)) (snd capacity_range)))
      else filtered_df)"

definition filtering_logic ::
  "row dataframe \<Rightarrow> string \<Rightarrow> string \<Rightarrow> rat \<times> rat \<Rightarrow> error + row dataframe" where
  "filtering_logic df selected_country selected_company capacity_range =
     (case country_filter (copy df) selected_country of
        Inl e \<Rightarrow> Inl e
      | Inr f1 \<Rightarrow>
          (case company_filter f1 selected_company of
             Inl e \<Rightarrow> Inl e
           | Inr f2 \<Rightarrow> Inr (capacity_filter f2 capacity_range)))"

section \<open>The sidebar of \<^verbatim>\<open>main\<close> (lines 311 to 324)\<close>

text \<open>
  \<^verbatim>\<open>
  countries = ['All'] + sorted(df['Country/Area_x'].dropna().unique().tolist())
                  if 'Country/Area_x' in df.columns else ['All']
  companies = ['All'] + sorted(df['Owner'].dropna().unique().tolist())
                  if 'Owner' in df.columns else ['All']
  cap_max = int(df[capcol].max()) if capcol in df.columns else 1
  capacity_range = st.sidebar.slider("Capacity Range (ttpa)",
      min_value=0, max_value=cap_max, value=(0, cap_max))
  \<close>
  \<^verbatim>\<open>sorted\<close> orders strings by code point, which is the byte order of their UTF-8 form.
  \<^verbatim>\<open>int\<close> of NaN raises \<^verbatim>\<open>ValueError\<close>. The slider is the control the user sees: its two
  bounds and the range it starts with. Streamlit puts the bounds and the ends of the
  initial range in order, widens the bounds to hold the range, and raises
  \<^verbatim>\<open>StreamlitAPIException\<close> unless the lower bound is then below the upper one and both are
  integers a browser holds exactly (at most \<open>2 ^ 53 - 1\<close> in absolute value).
\<close>

definition countries :: "row dataframe \<Rightarrow> string list" where
  "countries df =
     (if country_col \<in> set (columns df)
      then ''All'' # sort (unique (dropna (map Country_Area_x (rows df))))
      else [''All''])"

definition companies :: "row dataframe \<Rightarrow> string list" where
  "companies df =
     (if owner_col \<in> set (columns df)
      then ''All'' # sort (unique (dropna (map Owner (rows df))))
      else [''All''])"

definition cap_max :: "row dataframe \<Rightarrow> error + int" where
  "cap_max df =
     (if capcol \<in> set (columns df) then
        (case series_max (map capacity (rows df)) of
           None \<Rightarrow> Inl ValueError
         | Some m \<Rightarrow> Inr (py_int m))
      else Inr 1)"

record slider =
  min_value :: int
  max_value :: int
  initial_value :: "int \<times> int"

definition max_safe_integer :: int where
  "max_safe_integer = 2 ^ 53 - 1"

definition st_slider :: "int \<Rightarrow> int \<Rightarrow> int \<times> int \<Rightarrow> error + slider" where
  "st_slider min_v max_v val =
     (let lo = min min_v max_v;
          hi = max lo max_v;
          start = min (fst val) (snd val);
          stop = max (fst val) (snd val);
          lo' = min start lo;
          hi' = max stop hi
      in if lo' < hi' \<and> - max_safe_integer \<le> lo' \<and> hi' \<le> max_safe_integer
         then Inr \<lparr>min_value = lo', max_value = hi', initial_value = (start, stop)\<rparr>
         else Inl StreamlitAPIException)"

definition capacity_slider :: "row dataframe \<Rightarrow> error + slider" where
  "capacity_slider df =
     (case cap_max df of
        Inl e \<Rightarrow> Inl e
      | Inr m \<Rightarrow> st_slider 0 m (0, m))"

section \<open>\<^verbatim>\<open>create_metrics_row\<close> (lines 54 to 67)\<close>

text \<open>The four numbers handed to \<^verbatim>\<open>st.metric\<close>, before formatting. Python formats a
  NaN as \<^verbatim>\<open>nan\<close>.\<close>

record metrics_row =
  total_plants :: nat
  tc :: float64
  avgc :: float64
  ncountries :: nat

definition create_metrics_row :: "numpy \<Rightarrow> row dataframe \<Rightarrow> metrics_row" where
  "create_metrics_row np df =
     \<lparr>total_plants = length (rows df),
      tc = (if capcol \<in> set (columns df) then series_sum np (map capacity (rows df))
            else Finite 0),
      avgc = (if capcol \<in> set (columns df) then series_mean np (map capacity (rows df))
              else Finite 0),
      ncountries =
        (if country_col \<in> set (columns df) then nunique (map Country_Area_x (rows df)) else 0)\<rparr>"

section \<open>\<^verbatim>\<open>create_geographic_map\<close> (lines 69 to 123)\<close>



text \<open>An argument written \<^verbatim>\<open>"col" if "col" in df_clean.columns else None\<close>.\<close>

definition if_column :: "row dataframe \<Rightarrow> string \<Rightarrow> string list" where
  "if_column table c = (if c \<in> set (columns table) then [c] else [])"


definition value_col :: string where
  "value_col = ''value''"



section \<open>\<^verbatim>\<open>create_environmental_map\<close> (lines 184 to 250)\<close>


section \<open>\<^verbatim>\<open>create_environmental_metrics\<close> (lines 168 to 182)\<close>

record environmental_metrics =
  avg_env_value :: float64
  max_env_value :: "rat option"
  min_env_value :: "rat option"
  high_risk_plants :: nat

definition create_environmental_metrics :: "numpy \<Rightarrow> row dataframe \<Rightarrow> environmental_metrics" where
  "create_environmental_metrics np df =
     \<lparr>avg_env_value =
        (if value_col \<in> set (columns df) then series_mean np (map env_value (rows df))
         else Finite 0),
      max_env_value =
        (if value_col \<in> set (columns df) then series_max (map env_value (rows df)) else Some 0),
      min_env_value =
        (if value_col \<in> set (columns df) then series_min (map env_value (rows df)) else Some 0),
      high_risk_plants =
        (if value_col \<in> set (columns df) then
           length (rows (boolean_index df
                     (series_gt (map env_value (rows df))
                        (quantile np (map env_value (rows df)) (3 / 4)))))
         else 0)\<rparr>"

section \<open>\<^verbatim>\<open>create_company_charts\<close> (lines 125 to 154)\<close>

text \<open>One row of \<^verbatim>\<open>company_aggregation.csv\<close>.\<close>

record company_row =
  company_idx :: nat
  company_Owner :: "string option"
  total_capacity :: "rat option"
  number_of_plants :: "rat option"
  number_of_countries :: "rat option"

text \<open>\<^verbatim>\<open>px.bar(table, x="Owner", y=column, title=...)\<close>: one bar per row of the table, in
  the table's row order, the owner on the x axis and the column's cell as height;
  \<^verbatim>\<open>ValueError\<close> when the table lacks the x or the y column. The y column comes as its label
  and the field that holds its cells.\<close>

record bar_chart =
  title :: string
  bars :: "(string option \<times> rat option) list"

definition px_bar ::
  "company_row dataframe \<Rightarrow> string \<Rightarrow> (company_row \<Rightarrow> rat option) \<Rightarrow> string
     \<Rightarrow> error + bar_chart" where
  "px_bar table y_col y t =
     (if owner_col \<in> set (columns table) \<and> y_col \<in> set (columns table)
      then Inr \<lparr>title = t, bars = map (\<lambda>r. (company_Owner r, y r)) (rows table)\<rparr>
      else Inl ValueError)"

definition create_company_charts ::
  "company_row dataframe \<Rightarrow> error + (bar_chart \<times> bar_chart \<times> bar_chart) option" where
  "create_company_charts company_df =
     (if df_empty company_df then Inr None
      else
        (let top_companies = head company_df 20 in
         case px_bar top_companies ''total_capacity'' total_capacity
                ''Top 20 Companies by Total Crude Steel Capacity (ttpa)'' of
           Inl e \<Rightarrow> Inl e
         | Inr fig_capacity \<Rightarrow>
             (case px_bar top_companies ''number_of_plants'' number_of_plants
                     ''Top 20 Companies by Number of Operating Steel Plants'' of
                Inl e \<Rightarrow> Inl e
              | Inr fig_plants \<Rightarrow>
                  (case px_bar top_companies ''number_of_countries'' number_of_countries
                          ''Top 20 Companies by Geographic Spread (Number of Countries)'' of
                     Inl e \<Rightarrow> Inl e
                   | Inr fig_countries \<Rightarrow> Inr (Some (fig_capacity, fig_plants, fig_countries))))))"

section \<open>\<^verbatim>\<open>main\<close> on a store of frames\<close>

text \<open>
  Python variables hold references. To say what a run of \<^verbatim>\<open>main\<close> does to the frame that
  \<^verbatim>\<open>df\<close> refers to, the frames live in a store, variables hold addresses, and every
  pandas call that builds a frame (\<^verbatim>\<open>copy\<close>, boolean indexing) allocates a new address.
  A statement that is skipped (\<^verbatim>\<open>'All'\<close>, or no capacity column) leaves \<^verbatim>\<open>filtered_df\<close>
  bound to the address it had. An unbound address is a \<^verbatim>\<open>NameError\<close>.
\<close>

type_synonym addr = nat

record store =
  objs :: "addr \<Rightarrow> row dataframe option"
  fresh :: addr

definition new_frame :: "row dataframe \<Rightarrow> store \<Rightarrow> addr \<times> store" where
  "new_frame d s = (fresh s, s\<lparr>objs := (objs s)(fresh s \<mapsto> d), fresh := Suc (fresh s)\<rparr>)"

definition copy_stmt :: "addr \<Rightarrow> store \<Rightarrow> (error + addr) \<times> store" where
  "copy_stmt df s =
     (case objs s df of
        None \<Rightarrow> (Inl NameError, s)
      | Some d \<Rightarrow> (case new_frame (copy d) s of (a, s') \<Rightarrow> (Inr a, s')))"

definition country_stmt :: "addr \<Rightarrow> string \<Rightarrow> store \<Rightarrow> (error + addr) \<times> store" where
  "country_stmt filtered_df selected_country s =
     (if selected_country \<noteq> ''All'' then
        (case objs s filtered_df of
           None \<Rightarrow> (Inl NameError, s)
         | Some d \<Rightarrow>
             (case country_filter d selected_country of
                Inl e \<Rightarrow> (Inl e, s)
              | Inr d' \<Rightarrow> (case new_frame d' s of (a, s') \<Rightarrow> (Inr a, s'))))
      else (Inr filtered_df, s))"

definition company_stmt :: "addr \<Rightarrow> string \<Rightarrow> store \<Rightarrow> (error + addr) \<times> store" where
  "company_stmt filtered_df selected_company s =
     (if selected_company \<noteq> ''All'' then
        (case objs s filtered_df of
           None \<Rightarrow> (Inl NameError, s)
         | Some d \<Rightarrow>
             (case company_filter d selected_company of
                Inl e \<Rightarrow> (Inl e, s)
              | Inr d' \<Rightarrow> (case new_frame d' s of (a, s') \<Rightarrow> (Inr a, s'))))
      else (Inr filtered_df, s))"

definition capacity_stmt :: "addr \<Rightarrow> rat \<times> rat \<Rightarrow> store \<Rightarrow> (error + addr) \<times> store" where
  "capacity_stmt filtered_df capacity_range s =
     (case objs s filtered_df of
        None \<Rightarrow> (Inl NameError, s)
      | Some d \<Rightarrow>
          if capcol \<in> set (columns d)
          then (case new_frame (capacity_filter d capacity_range) s of (a, s') \<Rightarrow> (Inr a, s'))
          else (Inr filtered_df, s))"

definition filtering_stmts ::
  "addr \<Rightarrow> string \<Rightarrow> string \<Rightarrow> rat \<times> rat \<Rightarrow> store \<Rightarrow> (error + addr) \<times> store" where
  "filtering_stmts df selected_country selected_company capacity_range s =
     (case copy_stmt df s of
        (Inl e, s0) \<Rightarrow> (Inl e, s0)
      | (Inr a0, s0) \<Rightarrow>
          (case country_stmt a0 selected_country s0 of
             (Inl e, s1) \<Rightarrow> (Inl e, s1)
           | (Inr a1, s1) \<Rightarrow>
               (case company_stmt a1 selected_company s1 of
                  (Inl e, s2) \<Rightarrow> (Inl e, s2)
                | (Inr a2, s2) \<Rightarrow> capacity_stmt a2 capacity_range s2)))"

text \<open>One run of \<^verbatim>\<open>main\<close> up to line 339: the option lists and the slider are built from
  the frame \<^verbatim>\<open>df\<close> refers to, the user's three selections come back from the widgets, and
  the filter runs. The run's outcome is what the sidebar offered and the filtered frame.\<close>

record selection =
  selected_country :: string
  selected_company :: string
  capacity_range :: "int \<times> int"

record view =
  offered_countries :: "string list"
  offered_companies :: "string list"
  offered_slider :: slider
  filtered :: "row dataframe"

definition main :: "addr \<Rightarrow> selection \<Rightarrow> store \<Rightarrow> (error + view) \<times> store" where
  "main df sel s =
     (case objs s df of
        None \<Rightarrow> (Inl NameError, s)
      | Some d \<Rightarrow>
          (case capacity_slider d of
             Inl e \<Rightarrow> (Inl e, s)
           | Inr sl \<Rightarrow>
               (case filtering_stmts df (selected_country sel) (selected_company sel)
                       (of_int (fst (capacity_range sel)), of_int (snd (capacity_range sel))) s of
                  (Inl e, s') \<Rightarrow> (Inl e, s')
                | (Inr a, s') \<Rightarrow>
                    (case objs s' a of
                       None \<Rightarrow> (Inl NameError, s')
                     | Some f \<Rightarrow>
                         (Inr \<lparr>offered_countries = countries d, offered_companies = companies d,
                               offered_slider = sl, filtered = f\<rparr>, s')))))"

text \<open>Streamlit runs \<^verbatim>\<open>main\<close> again on every interaction, on the store the run before
  left.\<close>

fun session :: "addr \<Rightarrow> selection list \<Rightarrow> store \<Rightarrow> (error + view) list \<times> store" where
  "session df [] s = ([], s)"
| "session df (sel # sels) s =
     (case main df sel s of
        (v, s') \<Rightarrow> (case session df sels s' of (vs, s'') \<Rightarrow> (v # vs, s'')))"

section \<open>Predicates and example tables used in the statements\<close>

text \<open>What each of the three filter statements asks of a row.\<close>

definition country_ok :: "string \<Rightarrow> row \<Rightarrow> bool" where
  "country_ok sc r = (sc = ''All'' \<or> Country_Area_x r = Some sc)"

definition company_ok :: "string \<Rightarrow> row \<Rightarrow> bool" where
  "company_ok so r = (so = ''All'' \<or> Owner r = Some so)"

definition in_capacity_range :: "rat \<times> rat \<Rightarrow> row \<Rightarrow> bool" where
  "in_capacity_range cr r =
     (case capacity r of None \<Rightarrow> False | Some c \<Rightarrow> fst cr \<le> c \<and> c \<le> snd cr)"

text \<open>
  The order statistics of a list of values, said by counting and without sorting: \<open>v\<close> is
  the value at position \<open>k\<close> (from 0) in ascending order when it occurs in the list, at most
  \<open>k\<close> values are below it and more than \<open>k\<close> values are at or below it.
\<close>

definition is_kth_smallest :: "rat list \<Rightarrow> nat \<Rightarrow> rat \<Rightarrow> bool" where
  "is_kth_smallest xs k v =
     (v \<in> set xs \<and> length (filter (\<lambda>x. x < v) xs) \<le> k \<and> k < length (filter (\<lambda>x. x \<le> v) xs))"

text \<open>A row's risk value is above a threshold that pandas computed.\<close>

definition above :: "float64 \<Rightarrow> row \<Rightarrow> bool" where
  "above q r =
     (case env_value r of
        None \<Rightarrow> False
      | Some v \<Rightarrow>
          (case q of Finite t \<Rightarrow> t < v | MinusInf \<Rightarrow> True | PlusInf \<Rightarrow> False | NaN \<Rightarrow> False))"

text \<open>Arithmetic without rounding. 64-bit arithmetic agrees with it where every
  intermediate result is a 64-bit number, as on the small numbers of the examples.\<close>

definition exact :: numpy where
  "exact =
     \<lparr>np_sum = (\<lambda>s. Finite (sum_list (dropna s))),
      np_mean = (\<lambda>s. Finite (sum_list (dropna s) / of_nat (length (dropna s)))),
      np_lerp = (\<lambda>a b t. Finite (a + (b - a) * t))\<rparr>"

text \<open>A store in which a run changed no frame that existed before it.\<close>

definition unchanged_below :: "store \<Rightarrow> store \<Rightarrow> bool" where
  "unchanged_below s s' = (fresh s \<le> fresh s' \<and> (\<forall>a < fresh s. objs s' a = objs s a))"

text \<open>Rows for examples: a plant with a country, an owner and a capacity, and a row of
  the environmental table (owner X, capacity 100) with its country, its coordinates and
  its risk value.\<close>

definition plant :: "nat \<Rightarrow> string option \<Rightarrow> string option \<Rightarrow> rat option \<Rightarrow> row" where
  "plant i c ow k =
     \<lparr>idx = i, Plant_name = None, Owner = ow, Country_Area_x = c, capacity = k,
      latitude = None, longitude = None, latitude_left = None, longitude_left = None,
      env_value = None\<rparr>"

definition env_plant ::
  "nat \<Rightarrow> string option \<Rightarrow> rat option \<Rightarrow> rat option \<Rightarrow> rat option \<Rightarrow> row" where
  "env_plant i c la lo v =
     \<lparr>idx = i, Plant_name = None, Owner = Some ''X'', Country_Area_x = c, capacity = Some 100,
      latitude = la, longitude = lo, latitude_left = la, longitude_left = lo,
      env_value = v\<rparr>"

definition plant_columns :: "string list" where
  "plant_columns = [country_col, owner_col, capcol, ''latitude'', ''longitude'']"

definition env_columns :: "string list" where
  "env_columns =
     [country_col, owner_col, capcol, ''latitude'', ''longitude'',
      ''latitude_left'', ''longitude_left'', value_col]"

text \<open>Three plants with capacities 100, 200, 300 in countries A, A, B.\<close>

definition three_plants :: "row dataframe" where
  "three_plants =
     \<lparr>columns = plant_columns,
      rows = [plant 0 (Some ''A'') (Some ''X'') (Some 100),
              plant 1 (Some ''A'') (Some ''Y'') (Some 200),
              plant 2 (Some ''B'') (Some ''X'') (Some 300)]\<rparr>"

text \<open>Two plants, the second with no capacity recorded.\<close>

definition plants_with_gap :: "row dataframe" where
  "plants_with_gap =
     \<lparr>columns = plant_columns,
      rows = [plant 0 (Some ''A'') (Some ''X'') (Some 100),
              plant 1 (Some ''A'') (Some ''Y'') None]\<rparr>"

text \<open>Two plants, the larger with a capacity of 250.5.\<close>

definition half_plants :: "row dataframe" where
  "half_plants =
     \<lparr>columns = plant_columns,
      rows = [plant 0 (Some ''A'') (Some ''X'') (Some 100),
              plant 1 (Some ''B'') (Some ''Y'') (Some (501 / 2))]\<rparr>"

text \<open>A plant table with its columns and no row, as a filter that matches nothing
  returns it.\<close>

definition no_plants :: "row dataframe" where
  "no_plants = \<lparr>columns = plant_columns, rows = []\<rparr>"

text \<open>An environmental table with the risk values 10, 20, 30, 40 in countries A, A, B, B,
  and one whose second row has no risk value and whose third has no longitude.\<close>

definition four_risks :: "row dataframe" where
  "four_risks =
     \<lparr>columns = env_columns,
      rows = [env_plant 0 (Some ''A'') (Some 1) (Some 1) (Some 10),
              env_plant 1 (Some ''A'') (Some 2) (Some 2) (Some 20),
              env_plant 2 (Some ''B'') (Some 3) (Some 3) (Some 30),
              env_plant 3 (Some ''B'') (Some 4) (Some 4) (Some 40)]\<rparr>"


text \<open>A company table in descending order of total capacity: X has 300 in one plant and
  one country, Y has 200 in five plants and two countries.\<close>

definition two_companies :: "company_row dataframe" where
  "two_companies =
     \<lparr>columns = [owner_col, ''total_capacity'', ''number_of_plants'', ''number_of_countries''],
      rows = [\<lparr>company_idx = 0, company_Owner = Some ''X'', total_capacity = Some 300,
               number_of_plants = Some 1, number_of_countries = Some 1\<rparr>,
              \<lparr>company_idx = 1, company_Owner = Some ''Y'', total_capacity = Some 200,
               number_of_plants = Some 5, number_of_countries = Some 2\<rparr>]\<rparr>"

text \<open>A store whose only frame, at address 0, is the table of three plants, and two
  interactions: the user picks country A, then goes back to all countries.\<close>

definition one_frame_store :: store where
  "one_frame_store = \<lparr>objs = (\<lambda>a. None)(0 \<mapsto> three_plants), fresh = 1\<rparr>"

definition two_selections :: "selection list" where
  "two_selections =
     [\<lparr>selected_country = ''A'', selected_company = ''All'', capacity_range = (0, 300)\<rparr>,
      \<lparr>selected_country = ''All'', selected_company = ''All'', capacity_range = (0, 300)\<rparr>]"

section \<open>Boolean indexing is list filtering\<close>

lemma boolean_index_map:
  "boolean_index df (map P (rows df)) = df\<lparr>rows := filter P (rows df)\<rparr>"
proof -
  have "map fst (filter snd (zip xs (map P xs))) = filter P xs" for xs :: "'a list"
    by (induction xs) simp_all
  then show ?thesis
    by (simp add: boolean_index_def)
qed

lemma series_eq_map:
  "series_eq (map f xs) v = map (\<lambda>r. f r = Some v) xs"
  by (induction xs) (auto simp: series_eq_def split: option.splits)

lemma capacity_mask:
  "mask_and (series_ge (map capacity xs) lo) (series_le (map capacity xs) hi)
     = map (in_capacity_range (lo, hi)) xs"
  by (induction xs)
     (simp_all add: mask_and_def series_ge_def series_le_def in_capacity_range_def
        split: option.splits)

lemma copy_id: "copy (df :: 'r dataframe) = df"
  by (simp add: copy_def)

lemma country_filter_eq:
  "country_filter d sc =
     (if sc \<noteq> ''All'' \<and> country_col \<notin> set (columns d) then Inl (KeyError country_col)
      else Inr (d\<lparr>rows := filter (country_ok sc) (rows d)\<rparr>))"
  by (simp add: country_filter_def getitem_def series_eq_map boolean_index_map country_ok_def [abs_def])

lemma company_filter_eq:
  "company_filter d so =
     (if so \<noteq> ''All'' \<and> owner_col \<notin> set (columns d) then Inl (KeyError owner_col)
      else Inr (d\<lparr>rows := filter (company_ok so) (rows d)\<rparr>))"
  by (simp add: company_filter_def getitem_def series_eq_map boolean_index_map company_ok_def [abs_def])

lemma capacity_filter_eq:
  "capacity_filter d cr =
     (if capcol \<in> set (columns d) then d\<lparr>rows := filter (in_capacity_range cr) (rows d)\<rparr>
      else d)"
  by (cases cr) (simp add: capacity_filter_def capacity_mask boolean_index_map)

lemma filtering_logic_eq:
  "filtering_logic df sc so cr =
     (if sc \<noteq> ''All'' \<and> country_col \<notin> set (columns df) then Inl (KeyError country_col)
      else if so \<noteq> ''All'' \<and> owner_col \<notin> set (columns df) then Inl (KeyError owner_col)
      else Inr (df\<lparr>rows := filter (\<lambda>r. country_ok sc r \<and> company_ok so r \<and>
                  (capcol \<in> set (columns df) \<longrightarrow> in_capacity_range cr r)) (rows df)\<rparr>))"
  by (simp add: filtering_logic_def copy_id country_filter_eq company_filter_eq
        capacity_filter_eq conj_commute conj_left_commute)


lemma fold_max_ge: "x \<le> fold max xs (x :: rat) \<and> (\<forall>y \<in> set xs. y \<le> fold max xs x)"
proof (induction xs arbitrary: x)
  case Nil
  then show ?case by simp
next
  case (Cons a xs)
  have "max x a \<le> fold max xs (max x a)" and "\<forall>y \<in> set xs. y \<le> fold max xs (max x a)"
    using Cons.IH [of "max x a"] by simp_all
  then show ?case by (auto simp: max.commute)
qed

lemma fold_min_le: "fold min xs (x :: rat) \<le> x \<and> (\<forall>y \<in> set xs. fold min xs x \<le> y)"
proof (induction xs arbitrary: x)
  case Nil
  then show ?case by simp
next
  case (Cons a xs)
  have "fold min xs (min x a) \<le> min x a" and "\<forall>y \<in> set xs. fold min xs (min x a) \<le> y"
    using Cons.IH [of "min x a"] by simp_all
  then show ?case by (auto simp: min.commute)
qed

lemma series_max_upper:
  "series_max s = Some hi \<Longrightarrow> c \<in> set (dropna s) \<Longrightarrow> c \<le> hi"
  using fold_max_ge by (auto simp: series_max_def split: list.splits)

lemma series_min_lower:
  "series_min s = Some lo \<Longrightarrow> c \<in> set (dropna s) \<Longrightarrow> lo \<le> c"
  using fold_min_le by (auto simp: series_min_def split: list.splits)

lemma set_dropna: "set (dropna s) = {x. Some x \<in> set s}"
  by (induction s) (auto simp: dropna_def split: option.splits)

section \<open>The capacity filter\<close>

text \<open>
  Claim C4. When the frame has the capacity column, the capacity filter keeps exactly the
  rows whose capacity \<open>c\<close> is present with \<open>lo \<le> c \<le> hi\<close>, in their order: a row whose
  capacity is exactly \<open>lo\<close> or exactly \<open>hi\<close> stays, a row without a capacity goes. When the
  frame has no capacity column the filter is skipped and the frame comes back as it is.
\<close>

theorem capacity_filter_inclusive:
  "(capcol \<in> set (columns df) \<longrightarrow>
      columns (capacity_filter df (lo, hi)) = columns df \<and>
      rows (capacity_filter df (lo, hi)) =
        filter (\<lambda>r. \<exists>c. capacity r = Some c \<and> lo \<le> c \<and> c \<le> hi) (rows df) \<and>
      (\<forall>r \<in> set (rows df).
         (capacity r = Some lo \<and> lo \<le> hi \<longrightarrow> r \<in> set (rows (capacity_filter df (lo, hi)))) \<and>
         (capacity r = Some hi \<and> lo \<le> hi \<longrightarrow> r \<in> set (rows (capacity_filter df (lo, hi)))) \<and>
         (capacity r = None \<longrightarrow> r \<notin> set (rows (capacity_filter df (lo, hi)))))) \<and>
   (capcol \<notin> set (columns df) \<longrightarrow> capacity_filter df (lo, hi) = df)"
proof -
  have P: "in_capacity_range (lo, hi) = (\<lambda>r. \<exists>c. capacity r = Some c \<and> lo \<le> c \<and> c \<le> hi)"
    by (auto simp: in_capacity_range_def fun_eq_iff split: option.splits)
  show ?thesis
    by (simp add: capacity_filter_eq P)
qed

theorem capacity_filter_inclusive_witness:
  "capcol \<in> set (columns plants_with_gap) \<and>
   rows (capacity_filter plants_with_gap (100, 100)) = [plant 0 (Some ''A'') (Some ''X'') (Some 100)] \<and>
   capcol \<notin> set (columns (plants_with_gap\<lparr>columns := [owner_col]\<rparr>)) \<and>
   capacity_filter (plants_with_gap\<lparr>columns := [owner_col]\<rparr>) (100, 100)
     = plants_with_gap\<lparr>columns := [owner_col]\<rparr>"
  using capacity_filter_inclusive [of plants_with_gap 100 100]
        capacity_filter_inclusive [of "plants_with_gap\<lparr>columns := [owner_col]\<rparr>" 100 100]
  by (simp add: plants_with_gap_def plant_columns_def plant_def capcol_def owner_col_def country_col_def)


section \<open>The filter as a whole\<close>

lemma countries_hd: "sc \<in> set (countries df) \<Longrightarrow> sc = ''All'' \<or> country_col \<in> set (columns df)"
  by (auto simp: countries_def split: if_splits)

lemma companies_hd: "so \<in> set (companies df) \<Longrightarrow> so = ''All'' \<or> owner_col \<in> set (columns df)"
  by (auto simp: companies_def split: if_splits)

text \<open>
  Claim C10. A filter run that returns a frame returns the base frame's columns and a
  subsequence of its rows: the output rows are the base rows that pass one test, each kept
  once and in the base order, so distinct index labels stay distinct. With selections taken
  from the sidebar's option lists the run does return a frame.
\<close>

theorem filtering_logic_subsequence:
  "(sc \<in> set (countries df) \<and> so \<in> set (companies df) \<longrightarrow>
      (\<exists>out. filtering_logic df sc so cr = Inr out)) \<and>
   (\<forall>out. filtering_logic df sc so cr = Inr out \<longrightarrow>
      columns out = columns df \<and>
      (\<exists>P. rows out = filter P (rows df)) \<and>
      subseq (rows out) (rows df) \<and>
      set (rows out) \<subseteq> set (rows df) \<and>
      (distinct (map idx (rows df)) \<longrightarrow> distinct (map idx (rows out))))"
proof (intro conjI allI impI)
  assume "sc \<in> set (countries df) \<and> so \<in> set (companies df)"
  then have "sc = ''All'' \<or> country_col \<in> set (columns df)"
    and "so = ''All'' \<or> owner_col \<in> set (columns df)"
    using countries_hd companies_hd by blast+
  then show "\<exists>out. filtering_logic df sc so cr = Inr out"
    by (auto simp: filtering_logic_eq)
next
  fix out
  assume run: "filtering_logic df sc so cr = Inr out"
  define P where "P = (\<lambda>r. country_ok sc r \<and> company_ok so r \<and>
                  (capcol \<in> set (columns df) \<longrightarrow> in_capacity_range cr r))"
  from run have out: "out = df\<lparr>rows := filter P (rows df)\<rparr>"
    unfolding P_def by (simp add: filtering_logic_eq split: if_splits)
  show "columns out = columns df" by (simp add: out)
  show "\<exists>P. rows out = filter P (rows df)" using out by auto
  show "subseq (rows out) (rows df)" by (simp add: out)
  show "set (rows out) \<subseteq> set (rows df)" by (auto simp: out)
  show "distinct (map idx (rows out))" if "distinct (map idx (rows df))"
    using that by (simp add: out distinct_map_filter)
qed

theorem filtering_logic_subsequence_witness:
  "''A'' \<in> set (countries three_plants) \<and> ''X'' \<in> set (companies three_plants) \<and>
   filtering_logic three_plants ''A'' ''X'' (0, 300)
     = Inr (three_plants\<lparr>rows := [plant 0 (Some ''A'') (Some ''X'') (Some 100)]\<rparr>) \<and>
   distinct (map idx (rows three_plants)) \<and>
   subseq [plant 0 (Some ''A'') (Some ''X'') (Some 100)] (rows three_plants)"
proof -
  have run: "filtering_logic three_plants ''A'' ''X'' (0, 300)
     = Inr (three_plants\<lparr>rows := [plant 0 (Some ''A'') (Some ''X'') (Some 100)]\<rparr>)"
    by (simp add: filtering_logic_eq three_plants_def plant_columns_def plant_def
          country_ok_def company_ok_def in_capacity_range_def capcol_def owner_col_def
          country_col_def)
  have opts: "''A'' \<in> set (countries three_plants) \<and> ''X'' \<in> set (companies three_plants)"
    by (simp add: countries_def companies_def three_plants_def plant_columns_def plant_def
          country_col_def owner_col_def dropna_def unique_def)
  have d: "distinct (map idx (rows three_plants))"
    by (simp add: three_plants_def plant_def)
  show ?thesis
    using filtering_logic_subsequence [of "''A''" three_plants "''X''" "(0, 300)"] run opts d
    by simp
qed


text \<open>
  Claim C3. The filter is conjunctive. When the country statement and the owner statement,
  each run alone on the base frame, both return a frame, the chain returns a frame too, and
  its set of rows is the intersection of the row sets of the three statements run alone on
  the base frame. When one of the two raises, so does the chain.
\<close>

theorem filtering_logic_conjunctive:
  "(case (country_filter df sc, company_filter df so) of
      (Inr by_country, Inr by_company) \<Rightarrow>
        (\<exists>out. filtering_logic df sc so cr = Inr out \<and>
           set (rows out) =
             set (rows by_country) \<inter> set (rows by_company) \<inter> set (rows (capacity_filter df cr)))
    | _ \<Rightarrow> (\<exists>e. filtering_logic df sc so cr = Inl e))"
  by (auto simp: filtering_logic_eq country_filter_eq company_filter_eq capacity_filter_eq)

theorem filtering_logic_conjunctive_witness:
  "country_filter three_plants ''A''
     = Inr (three_plants\<lparr>rows := [plant 0 (Some ''A'') (Some ''X'') (Some 100),
                                  plant 1 (Some ''A'') (Some ''Y'') (Some 200)]\<rparr>) \<and>
   company_filter three_plants ''X''
     = Inr (three_plants\<lparr>rows := [plant 0 (Some ''A'') (Some ''X'') (Some 100),
                                  plant 2 (Some ''B'') (Some ''X'') (Some 300)]\<rparr>) \<and>
   rows (capacity_filter three_plants (100, 250))
     = [plant 0 (Some ''A'') (Some ''X'') (Some 100), plant 1 (Some ''A'') (Some ''Y'') (Some 200)] \<and>
   (\<exists>out. filtering_logic three_plants ''A'' ''X'' (100, 250) = Inr out \<and>
      set (rows out) = {plant 0 (Some ''A'') (Some ''X'') (Some 100)})"
proof -
  have c: "country_filter three_plants ''A''
     = Inr (three_plants\<lparr>rows := [plant 0 (Some ''A'') (Some ''X'') (Some 100),
                                  plant 1 (Some ''A'') (Some ''Y'') (Some 200)]\<rparr>)"
    by (simp add: country_filter_eq three_plants_def plant_columns_def plant_def
          country_ok_def country_col_def)
  have o: "company_filter three_plants ''X''
     = Inr (three_plants\<lparr>rows := [plant 0 (Some ''A'') (Some ''X'') (Some 100),
                                  plant 2 (Some ''B'') (Some ''X'') (Some 300)]\<rparr>)"
    by (simp add: company_filter_eq three_plants_def plant_columns_def plant_def
          company_ok_def owner_col_def country_col_def)
  have k: "rows (capacity_filter three_plants (100, 250))
     = [plant 0 (Some ''A'') (Some ''X'') (Some 100), plant 1 (Some ''A'') (Some ''Y'') (Some 200)]"
    by (simp add: capacity_filter_eq three_plants_def plant_columns_def plant_def
          in_capacity_range_def capcol_def)
  have "\<exists>out. filtering_logic three_plants ''A'' ''X'' (100, 250) = Inr out \<and>
      set (rows out) = {plant 0 (Some ''A'') (Some ''X'') (Some 100)}"
    using filtering_logic_conjunctive [of three_plants "''A''" "''X''" "(100, 250)"]
    by (auto simp: c o k plant_def)
  with c o k show ?thesis by blast
qed


text \<open>
  Claim C1, as the spec states it, fails: with country and owner \<open>All\<close> and the capacity
  range equal to the observed one, a row whose capacity is absent is dropped, because the
  capacity statement compares the absent cell with the bounds and both comparisons are
  False. The table \<open>plants_with_gap\<close> has the observed range 100 to 100; the filter returns
  one of its two rows, with that range and with the range the slider starts with.
\<close>

theorem full_range_filter_counterexample:
  "series_min (map capacity (rows plants_with_gap)) = Some 100 \<and>
   series_max (map capacity (rows plants_with_gap)) = Some 100 \<and>
   length (rows plants_with_gap) = 2 \<and>
   filtering_logic plants_with_gap ''All'' ''All'' (100, 100)
     = Inr (plants_with_gap\<lparr>rows := [plant 0 (Some ''A'') (Some ''X'') (Some 100)]\<rparr>) \<and>
   filtering_logic plants_with_gap ''All'' ''All'' (100, 100) \<noteq> Inr plants_with_gap \<and>
   capacity_slider plants_with_gap
     = Inr \<lparr>min_value = 0, max_value = 100, initial_value = (0, 100)\<rparr> \<and>
   filtering_logic plants_with_gap ''All'' ''All'' (0, 100) \<noteq> Inr plants_with_gap"
  by (simp add: filtering_logic_eq plants_with_gap_def plant_columns_def plant_def
        in_capacity_range_def series_min_def series_max_def dropna_def capacity_slider_def
        st_slider_def max_safe_integer_def cap_max_def py_int_def country_ok_def
        company_ok_def)

text \<open>
  Claim C1, amended. With country and owner \<open>All\<close> and a capacity range that covers every
  capacity observed in the base frame (the range from the observed minimum to the observed
  maximum does), the filter returns the base frame's columns and exactly its rows whose
  capacity is present, in order and unchanged, and the whole frame when it has no capacity
  column. So the base frame comes back unchanged when no row lacks a capacity.
\<close>

theorem full_range_filter_keeps_present:
  "(series_min (map capacity (rows df)) = Some lo \<and> series_max (map capacity (rows df)) = Some hi
      \<longrightarrow> (\<forall>c \<in> set (dropna (map capacity (rows df))). lo \<le> c \<and> c \<le> hi)) \<and>
   ((\<forall>c \<in> set (dropna (map capacity (rows df))). lo \<le> c \<and> c \<le> hi) \<longrightarrow>
      filtering_logic df ''All'' ''All'' (lo, hi) =
        Inr (if capcol \<in> set (columns df)
             then df\<lparr>rows := filter (\<lambda>r. capacity r \<noteq> None) (rows df)\<rparr> else df) \<and>
      ((\<forall>r \<in> set (rows df). capacity r \<noteq> None) \<longrightarrow>
         filtering_logic df ''All'' ''All'' (lo, hi) = Inr df))"
proof (intro conjI impI)
  assume "series_min (map capacity (rows df)) = Some lo \<and>
          series_max (map capacity (rows df)) = Some hi"
  then show "\<forall>c \<in> set (dropna (map capacity (rows df))). lo \<le> c \<and> c \<le> hi"
    using series_min_lower series_max_upper by blast
next
  assume cover: "\<forall>c \<in> set (dropna (map capacity (rows df))). lo \<le> c \<and> c \<le> hi"
  have same: "filter (in_capacity_range (lo, hi)) (rows df) = filter (\<lambda>r. capacity r \<noteq> None) (rows df)"
  proof (rule filter_cong [OF refl])
    fix r assume "r \<in> set (rows df)"
    then have "capacity r = Some c \<Longrightarrow> lo \<le> c \<and> c \<le> hi" for c
      using cover by (force simp: set_dropna)
    then show "in_capacity_range (lo, hi) r = (capacity r \<noteq> None)"
      by (auto simp: in_capacity_range_def split: option.splits)
  qed
  show run: "filtering_logic df ''All'' ''All'' (lo, hi) =
        Inr (if capcol \<in> set (columns df)
             then df\<lparr>rows := filter (\<lambda>r. capacity r \<noteq> None) (rows df)\<rparr> else df)"
    by (simp add: filtering_logic_eq country_ok_def company_ok_def same)
  show "filtering_logic df ''All'' ''All'' (lo, hi) = Inr df"
    if "\<forall>r \<in> set (rows df). capacity r \<noteq> None"
  proof -
    have "filter (\<lambda>r. capacity r \<noteq> None) (rows df) = rows df"
      using that by (simp add: filter_id_conv)
    then show ?thesis by (simp add: run)
  qed
qed

theorem full_range_filter_keeps_present_witness:
  "series_min (map capacity (rows three_plants)) = Some 100 \<and>
   series_max (map capacity (rows three_plants)) = Some 300 \<and>
   filtering_logic three_plants ''All'' ''All'' (100, 300) = Inr three_plants \<and>
   series_min (map capacity (rows plants_with_gap)) = Some 100 \<and>
   series_max (map capacity (rows plants_with_gap)) = Some 100 \<and>
   filtering_logic plants_with_gap ''All'' ''All'' (100, 100)
     = Inr (plants_with_gap\<lparr>rows := [plant 0 (Some ''A'') (Some ''X'') (Some 100)]\<rparr>)"
proof -
  have m3: "series_min (map capacity (rows three_plants)) = Some 100 \<and>
            series_max (map capacity (rows three_plants)) = Some 300"
    by (simp add: three_plants_def plant_def series_min_def series_max_def dropna_def)
  have m2: "series_min (map capacity (rows plants_with_gap)) = Some 100 \<and>
            series_max (map capacity (rows plants_with_gap)) = Some 100"
    by (simp add: plants_with_gap_def plant_def series_min_def series_max_def dropna_def)
  have p3: "\<forall>r \<in> set (rows three_plants). capacity r \<noteq> None"
    by (simp add: three_plants_def plant_def)
  have c2: "capcol \<in> set (columns plants_with_gap)"
    by (simp add: plants_with_gap_def plant_columns_def)
  have f2: "filter (\<lambda>r. capacity r \<noteq> None) (rows plants_with_gap)
              = [plant 0 (Some ''A'') (Some ''X'') (Some 100)]"
    by (simp add: plants_with_gap_def plant_def)
  show ?thesis
    using full_range_filter_keeps_present [of three_plants 100 300]
          full_range_filter_keeps_present [of plants_with_gap 100 100] m3 m2 p3 c2 f2
    by simp
qed


section \<open>The capacity slider\<close>

lemma floor_rat_numeral [simp]:
  "\<lfloor>(numeral a :: rat) / numeral b\<rfloor> = numeral a div numeral b"
  by (metis floor_divide_of_int_eq of_int_numeral)

lemma series_max_Max:
  "dropna s \<noteq> [] \<Longrightarrow> series_max s = Some (Max (set (dropna s)))"
proof (cases "dropna s")
  case Nil
  then show "dropna s \<noteq> [] \<Longrightarrow> ?thesis" by simp
next
  case (Cons x xs)
  have "Max (set (x # xs)) = fold max xs x"
    by (rule Max.set_eq_fold)
  with Cons show ?thesis
    by (simp add: series_max_def)
qed

lemma st_slider_positive:
  "0 < m \<Longrightarrow> m \<le> max_safe_integer \<Longrightarrow>
   st_slider 0 m (0, m) = Inr \<lparr>min_value = 0, max_value = m, initial_value = (0, m)\<rparr>"
  by (simp add: st_slider_def Let_def max_safe_integer_def)

lemma st_slider_zero: "st_slider 0 0 (0, 0) = Inl StreamlitAPIException"
  by (simp add: st_slider_def)

lemma st_slider_negative:
  "m < 0 \<Longrightarrow> - max_safe_integer \<le> m \<Longrightarrow>
   st_slider 0 m (0, m) = Inr \<lparr>min_value = m, max_value = 0, initial_value = (m, 0)\<rparr>"
  by (simp add: st_slider_def Let_def max_safe_integer_def)

lemma st_slider_too_large:
  "max_safe_integer < m \<Longrightarrow> st_slider 0 m (0, m) = Inl StreamlitAPIException"
  by (simp add: st_slider_def Let_def max_safe_integer_def)

text \<open>
  Claim C8, as the spec states it, fails. The lower bound of the slider is the literal 0,
  not the observed minimum: for capacities 100, 200, 300 the observed range is 100 to 300
  and the slider runs from 0 to 300.
\<close>

theorem capacity_slider_counterexample:
  "series_min (map capacity (rows three_plants)) = Some 100 \<and>
   series_max (map capacity (rows three_plants)) = Some 300 \<and>
   capacity_slider three_plants
     = Inr \<lparr>min_value = 0, max_value = 300, initial_value = (0, 300)\<rparr>"
  by (simp add: three_plants_def plant_columns_def plant_def series_min_def
        series_max_def dropna_def capacity_slider_def st_slider_def max_safe_integer_def
        cap_max_def py_int_def)

text \<open>
  Claim C8, amended. Of the two bounds of the capacity-range control only the upper one is
  derived from the data at load time: when the observed maximum capacity is a whole number
  from 1 to \<open>2 ^ 53 - 1\<close>, the upper bound equals the observed maximum, so no observed
  capacity lies above it. The lower bound is not the observed minimum: it is the hardcoded constant 0.
  The control starts with the whole range from 0 to the upper bound selected. For a table
  without a capacity column the control runs from 0 to 1.
\<close>

theorem capacity_slider_bounds:
  "(capcol \<in> set (columns df) \<and> dropna (map capacity (rows df)) \<noteq> [] \<and>
    Max (set (dropna (map capacity (rows df)))) \<in> \<int> \<and>
    1 \<le> Max (set (dropna (map capacity (rows df)))) \<and>
    Max (set (dropna (map capacity (rows df)))) \<le> of_int max_safe_integer \<longrightarrow>
      (\<exists>m. capacity_slider df = Inr \<lparr>min_value = 0, max_value = m, initial_value = (0, m)\<rparr> \<and>
           of_int m = Max (set (dropna (map capacity (rows df)))) \<and>
           (\<forall>c \<in> set (dropna (map capacity (rows df))). c \<le> of_int m))) \<and>
   (capcol \<notin> set (columns df) \<longrightarrow>
      capacity_slider df = Inr \<lparr>min_value = 0, max_value = 1, initial_value = (0, 1)\<rparr>)"
proof (intro conjI impI)
  let ?M = "Max (set (dropna (map capacity (rows df))))"
  assume a: "capcol \<in> set (columns df) \<and> dropna (map capacity (rows df)) \<noteq> [] \<and>
    ?M \<in> \<int> \<and> 1 \<le> ?M \<and> ?M \<le> of_int max_safe_integer"
  then obtain k :: int where k: "?M = of_int k" by (auto elim: Ints_cases)
  with a have k1: "1 \<le> k" and k2: "k \<le> max_safe_integer" by simp_all
  have int: "py_int ?M = k" using k k1 by (simp add: py_int_def)
  have "capacity_slider df = Inr \<lparr>min_value = 0, max_value = k, initial_value = (0, k)\<rparr>"
    using a int k1 k2
    by (simp add: capacity_slider_def cap_max_def series_max_Max st_slider_positive)
  moreover have "\<forall>c \<in> set (dropna (map capacity (rows df))). c \<le> of_int k"
    using k by (metis List.finite_set Max_ge)
  ultimately show "\<exists>m. capacity_slider df
        = Inr \<lparr>min_value = 0, max_value = m, initial_value = (0, m)\<rparr> \<and>
      of_int m = ?M \<and> (\<forall>c \<in> set (dropna (map capacity (rows df))). c \<le> of_int m)"
    using k by auto
next
  assume "capcol \<notin> set (columns df)"
  then show "capacity_slider df = Inr \<lparr>min_value = 0, max_value = 1, initial_value = (0, 1)\<rparr>"
    by (simp add: capacity_slider_def cap_max_def st_slider_positive max_safe_integer_def)
qed

theorem capacity_slider_bounds_witness:
  "capcol \<in> set (columns three_plants) \<and>
   dropna (map capacity (rows three_plants)) = [100, 200, 300] \<and>
   Max (set [100, 200, 300 :: rat]) = 300 \<and>
   capacity_slider three_plants = Inr \<lparr>min_value = 0, max_value = 300, initial_value = (0, 300)\<rparr> \<and>
   capcol \<notin> set (columns (three_plants\<lparr>columns := [owner_col]\<rparr>)) \<and>
   capacity_slider (three_plants\<lparr>columns := [owner_col]\<rparr>)
     = Inr \<lparr>min_value = 0, max_value = 1, initial_value = (0, 1)\<rparr>"
proof -
  have d: "dropna (map capacity (rows three_plants)) = [100, 200, 300]"
    by (simp add: three_plants_def plant_def dropna_def)
  have c: "capcol \<in> set (columns three_plants)"
    by (simp add: three_plants_def plant_columns_def)
  have n: "capcol \<notin> set (columns (three_plants\<lparr>columns := [owner_col]\<rparr>))"
    by (simp add: capcol_def owner_col_def)
  have m: "Max (set [100, 200, 300 :: rat]) = 300"
    by simp
  have "\<exists>k. capacity_slider three_plants
          = Inr \<lparr>min_value = 0, max_value = k, initial_value = (0, k)\<rparr> \<and> rat_of_int k = 300"
    using capacity_slider_bounds [of three_plants] d c m by (simp add: max_safe_integer_def)
  then have s: "capacity_slider three_plants
          = Inr \<lparr>min_value = 0, max_value = 300, initial_value = (0, 300)\<rparr>"
    by (metis of_int_eq_numeral_iff)
  show ?thesis
    using capacity_slider_bounds [of "three_plants\<lparr>columns := [owner_col]\<rparr>"] d c n m s
    by simp
qed

section \<open>The metrics row\<close>

lemma nunique_card: "nunique s = card (set (dropna s))"
proof -
  have "length (remdups (rev (dropna s))) = card (set (rev (dropna s)))"
    by (rule length_remdups_card_conv)
  then show ?thesis
    by (simp add: nunique_def unique_def)
qed

text \<open>
  Claim C6, as the spec states it, fails for the mean. For a plant table that has its
  columns and no row (what a filter that matches nothing returns), the row count, the
  capacity sum and the country count are 0, and the capacity mean is NaN, not 0: pandas'
  mean of an empty column is NaN, and the code puts 0 only where the column is missing.
  No arithmetic is done on this table, so the choice of arithmetic plays no part.
\<close>

theorem create_metrics_row_counterexample:
  "rows no_plants = [] \<and>
   create_metrics_row exact no_plants
     = \<lparr>total_plants = 0, tc = Finite 0, avgc = NaN, ncountries = 0\<rparr> \<and>
   avgc (create_metrics_row exact no_plants) \<noteq> Finite 0"
  by (simp add: no_plants_def create_metrics_row_def plant_columns_def series_sum_def
        series_mean_def nunique_def unique_def dropna_def)

text \<open>
  Claim C6, amended. Whatever the 64-bit arithmetic of pandas, the metrics summary returns
  the row count, pandas' sum and mean of the capacity column, and the number of distinct
  countries that are present. The capacity sum and mean are 0 when the capacity column is
  absent and the country count is 0 when the country column is absent. When the capacity
  column holds no value, and so when the table is empty, nothing is raised, the capacity
  sum is 0 and the capacity mean is NaN, not 0; an empty table has row count 0 and country
  count 0.
\<close>

theorem create_metrics_row_values:
  "total_plants (create_metrics_row np df) = length (rows df) \<and>
   tc (create_metrics_row np df) =
     (if capcol \<notin> set (columns df) then Finite 0
      else if dropna (map capacity (rows df)) = [] then Finite 0
      else np_sum np (map capacity (rows df))) \<and>
   avgc (create_metrics_row np df) =
     (if capcol \<notin> set (columns df) then Finite 0
      else if dropna (map capacity (rows df)) = [] then NaN
      else np_mean np (map capacity (rows df))) \<and>
   ncountries (create_metrics_row np df) =
     (if country_col \<in> set (columns df)
      then card (set (dropna (map Country_Area_x (rows df)))) else 0) \<and>
   (rows df = [] \<longrightarrow>
      total_plants (create_metrics_row np df) = 0 \<and>
      tc (create_metrics_row np df) = Finite 0 \<and>
      ncountries (create_metrics_row np df) = 0 \<and>
      avgc (create_metrics_row np df) = (if capcol \<in> set (columns df) then NaN else Finite 0))"
  by (simp add: create_metrics_row_def series_sum_def series_mean_def nunique_card dropna_def)

text \<open>The witness is the spec's example: of three plants with capacities 100, 200, 300
  in countries A, A, B, the filter for country A keeps two, with total capacity 300, mean
  150 and one country; the sum 100 + 200 and the quotient 300 / 2 are exact in 64 bits.\<close>

theorem create_metrics_row_values_witness:
  "filtering_logic three_plants ''A'' ''All'' (0, 300)
     = Inr (three_plants\<lparr>rows := [plant 0 (Some ''A'') (Some ''X'') (Some 100),
                                  plant 1 (Some ''A'') (Some ''Y'') (Some 200)]\<rparr>) \<and>
   create_metrics_row exact
       (three_plants\<lparr>rows := [plant 0 (Some ''A'') (Some ''X'') (Some 100),
                              plant 1 (Some ''A'') (Some ''Y'') (Some 200)]\<rparr>)
     = \<lparr>total_plants = 2, tc = Finite 300, avgc = Finite 150, ncountries = 1\<rparr> \<and>
   rows no_plants = [] \<and>
   create_metrics_row exact no_plants
     = \<lparr>total_plants = 0, tc = Finite 0, avgc = NaN, ncountries = 0\<rparr>"
proof -
  have f: "filtering_logic three_plants ''A'' ''All'' (0, 300)
     = Inr (three_plants\<lparr>rows := [plant 0 (Some ''A'') (Some ''X'') (Some 100),
                                  plant 1 (Some ''A'') (Some ''Y'') (Some 200)]\<rparr>)"
    by (simp add: filtering_logic_eq three_plants_def plant_columns_def plant_def
          country_ok_def company_ok_def in_capacity_range_def)
  have c: "capcol \<in> set (columns three_plants) \<and> country_col \<in> set (columns three_plants) \<and>
           capcol \<in> set (columns no_plants) \<and> country_col \<in> set (columns no_plants)"
    by (simp add: three_plants_def no_plants_def plant_columns_def)
  have e: "rows no_plants = []"
    by (simp add: no_plants_def)
  have m: "create_metrics_row exact
       (three_plants\<lparr>rows := [plant 0 (Some ''A'') (Some ''X'') (Some 100),
                              plant 1 (Some ''A'') (Some ''Y'') (Some 200)]\<rparr>)
     = \<lparr>total_plants = 2, tc = Finite 300, avgc = Finite 150, ncountries = 1\<rparr>"
    using create_metrics_row_values
            [of exact "three_plants\<lparr>rows := [plant 0 (Some ''A'') (Some ''X'') (Some 100),
                                             plant 1 (Some ''A'') (Some ''Y'') (Some 200)]\<rparr>"] c
    by (simp add: plant_def dropna_def exact_def metrics_row.equality)
  have n: "create_metrics_row exact no_plants
     = \<lparr>total_plants = 0, tc = Finite 0, avgc = NaN, ncountries = 0\<rparr>"
    using create_metrics_row_values [of exact no_plants] c e
    by (simp add: dropna_def metrics_row.equality)
  from f m e n show ?thesis by simp
qed

section \<open>The environmental metrics\<close>

lemma series_gt_map:
  "series_gt (map env_value xs) q = map (above q) xs"
  by (simp add: series_gt_def above_def comp_def)

lemma high_risk_plants_eq:
  "value_col \<in> set (columns df) \<Longrightarrow>
   high_risk_plants (create_environmental_metrics np df) =
     length (filter (above (quantile np (map env_value (rows df)) (3 / 4))) (rows df))"
  by (simp add: create_environmental_metrics_def series_gt_map boolean_index_map)

subsection \<open>Order statistics\<close>

lemma length_filter_sort: "length (filter P (sort xs)) = length (filter P xs)"
  by (simp add: filter_sort)

lemma is_kth_smallest_sort:
  "is_kth_smallest (sort xs) k v = is_kth_smallest xs k v"
  by (simp add: is_kth_smallest_def length_filter_sort)

lemma sorted_nth_is_kth_smallest:
  assumes "sorted ys" and "k < length ys"
  shows "is_kth_smallest ys k (ys ! k)"
proof -
  let ?v = "ys ! k"
  have split: "ys = take k ys @ drop k ys" by simp
  have upper: "\<forall>x \<in> set (drop k ys). ?v \<le> x"
  proof
    fix x assume "x \<in> set (drop k ys)"
    then obtain j where j: "j < length (drop k ys)" "x = drop k ys ! j"
      by (auto simp: in_set_conv_nth)
    then have "x = ys ! (k + j)" and "k + j < length ys" by simp_all
    then show "?v \<le> x"
      using assms(1) by (simp add: sorted_nth_mono)
  qed
  have lower: "\<forall>x \<in> set (take (Suc k) ys). x \<le> ?v"
  proof
    fix x assume "x \<in> set (take (Suc k) ys)"
    then obtain j where j: "j < length (take (Suc k) ys)" "x = take (Suc k) ys ! j"
      by (auto simp: in_set_conv_nth)
    then have "x = ys ! j" and "j \<le> k" by simp_all
    then show "x \<le> ?v"
      using assms by (simp add: sorted_nth_mono)
  qed
  have "filter (\<lambda>x. x < ?v) (drop k ys) = []"
    using upper by (auto simp: filter_empty_conv)
  then have "filter (\<lambda>x. x < ?v) ys = filter (\<lambda>x. x < ?v) (take k ys)"
    by (metis append_Nil2 append_take_drop_id filter_append)
  then have below: "length (filter (\<lambda>x. x < ?v) ys) \<le> k"
    by (metis length_filter_le length_take min.cobounded2 order_trans)
  have "filter (\<lambda>x. x \<le> ?v) (take (Suc k) ys) = take (Suc k) ys"
    using lower by (simp add: filter_id_conv)
  moreover have "filter (\<lambda>x. x \<le> ?v) ys
      = filter (\<lambda>x. x \<le> ?v) (take (Suc k) ys) @ filter (\<lambda>x. x \<le> ?v) (drop (Suc k) ys)"
    by (metis append_take_drop_id filter_append)
  ultimately have "length (filter (\<lambda>x. x \<le> ?v) ys) \<ge> length (take (Suc k) ys)"
    by simp
  then have atmost: "k < length (filter (\<lambda>x. x \<le> ?v) ys)"
    using assms(2) by simp
  show ?thesis
    using assms(2) below atmost by (simp add: is_kth_smallest_def)
qed

lemma length_filter_mono:
  "(\<And>x. x \<in> set xs \<Longrightarrow> P x \<Longrightarrow> Q x) \<Longrightarrow> length (filter P xs) \<le> length (filter Q xs)"
proof (induction xs)
  case Nil
  then show ?case by simp
next
  case (Cons x xs)
  then have "length (filter P xs) \<le> length (filter Q xs)" by simp
  with Cons.prems [of x] show ?case by auto
qed

lemma is_kth_smallest_unique:
  assumes "is_kth_smallest xs k a" and "is_kth_smallest xs k b"
  shows "a = b"
proof -
  have no: "\<not> (u < w)" if u: "is_kth_smallest xs k u" and w: "is_kth_smallest xs k w" for u w
  proof
    assume "u < w"
    then have "length (filter (\<lambda>x. x \<le> u) xs) \<le> length (filter (\<lambda>x. x < w) xs)"
      by (intro length_filter_mono) simp
    with u w show False by (simp add: is_kth_smallest_def)
  qed
  from no [OF assms] no [OF assms(2) assms(1)] show ?thesis by simp
qed

lemma quantile_order_statistics:
  fixes s :: "rat option list"
  defines "xs \<equiv> dropna s"
  defines "h \<equiv> of_nat (length xs - 1) * (3 / 4 :: rat)"
  assumes "xs \<noteq> []"
  shows "\<exists>a b. is_kth_smallest xs (nat \<lfloor>h\<rfloor>) a \<and>
               is_kth_smallest xs (min (Suc (nat \<lfloor>h\<rfloor>)) (length xs - 1)) b \<and>
               quantile np s (3 / 4) = np_lerp np a b (h - of_int \<lfloor>h\<rfloor>)"
proof -
  let ?n = "length xs"
  let ?k = "nat \<lfloor>h\<rfloor>"
  let ?ys = "sort xs"
  have n: "0 < ?n" using assms(3) by simp
  have h0: "0 \<le> h" by (simp add: h_def)
  have "h \<le> of_nat (?n - 1)" by (simp add: h_def mult_left_le)
  then have "\<lfloor>h\<rfloor> \<le> int (?n - 1)" by (simp add: floor_le_iff)
  then have k: "?k \<le> ?n - 1" using h0 by simp
  have len: "length ?ys = ?n" by simp
  have ne: "sort (dropna s) \<noteq> []" using n len unfolding xs_def by (metis length_greater_0_conv)
  have k1: "?k < length ?ys" unfolding len using n k by linarith
  have k2: "min (Suc ?k) (?n - 1) < length ?ys" unfolding len using n k by linarith
  have a: "is_kth_smallest xs ?k (?ys ! ?k)"
    using sorted_nth_is_kth_smallest [OF sorted_sort k1] by (simp add: is_kth_smallest_sort)
  have b: "is_kth_smallest xs (min (Suc ?k) (?n - 1)) (?ys ! min (Suc ?k) (?n - 1))"
    using sorted_nth_is_kth_smallest [OF sorted_sort k2] by (simp add: is_kth_smallest_sort)
  have "quantile np s (3 / 4) = np_lerp np (?ys ! ?k) (?ys ! min (Suc ?k) (?n - 1)) (h - of_int \<lfloor>h\<rfloor>)"
    using ne k by (simp add: quantile_def Let_def xs_def h_def min_absorb1)
  with a b show ?thesis by blast
qed

lemma quantile_no_value: "dropna s = [] \<Longrightarrow> quantile np s q = NaN"
  by (simp add: quantile_def)

subsection \<open>The high-risk count\<close>

lemma quantile_four_values:
  "quantile np [Some 10, Some 20, Some 30, Some 40] (3 / 4) = np_lerp np 30 40 (1 / 4)"
  by (simp add: quantile_def dropna_def Let_def)

lemma quantile_two_values:
  "quantile np [Some 10, Some 20] (3 / 4) = np_lerp np 10 20 (3 / 4)"
  by (simp add: quantile_def dropna_def Let_def)

text \<open>
  Claim C5. For a table with the value column, the high-risk count is the number of rows
  whose value is present and strictly greater than the 75th percentile of the value column
  of that same table. The environmental tab filters its table with the same three
  statements as the plant table (lines 423 to 434) and hands the result to
  \<^verbatim>\<open>create_environmental_metrics\<close>, so after a filter the threshold is the percentile of the
  filtered column.

  The 75th percentile of a column is fixed for every column: it is NaN when the column
  holds no value; with \<open>n\<close> values and \<open>h = 3 (n - 1) / 4\<close> it is numpy's interpolation,
  at the fraction \<open>h - \<lfloor>h\<rfloor>\<close>, between the one value at position \<open>\<lfloor>h\<rfloor>\<close> in ascending order
  and the one value at the next position (the last position when there is no next).
  For the values 10, 20, 30, 40 these are 30 and 40 at the fraction 1/4; the interpolation
  is exact there in 64 bits, the percentile is 32.5 and the count is 1.
\<close>

theorem high_risk_plants_count:
  "(value_col \<in> set (columns df) \<longrightarrow>
      high_risk_plants (create_environmental_metrics np df) =
        length (filter (above (quantile np (map env_value (rows df)) (3 / 4))) (rows df))) \<and>
   (\<forall>fdf. value_col \<in> set (columns df) \<and> filtering_logic df sc so cr = Inr fdf \<longrightarrow>
      high_risk_plants (create_environmental_metrics np fdf) =
        length (filter (above (quantile np (map env_value (rows fdf)) (3 / 4))) (rows fdf))) \<and>
   (dropna s = [] \<longrightarrow> quantile np s (3 / 4) = NaN) \<and>
   (dropna s \<noteq> [] \<longrightarrow>
      (let h = of_nat (length (dropna s) - 1) * (3 / 4 :: rat);
           k = nat \<lfloor>h\<rfloor>;
           k' = min (Suc k) (length (dropna s) - 1)
       in \<exists>a b. is_kth_smallest (dropna s) k a \<and>
                (\<forall>a'. is_kth_smallest (dropna s) k a' \<longrightarrow> a' = a) \<and>
                is_kth_smallest (dropna s) k' b \<and>
                (\<forall>b'. is_kth_smallest (dropna s) k' b' \<longrightarrow> b' = b) \<and>
                quantile np s (3 / 4) = np_lerp np a b (h - of_int \<lfloor>h\<rfloor>))) \<and>
   map env_value (rows four_risks) = [Some 10, Some 20, Some 30, Some 40] \<and>
   (np_lerp np 30 40 (1 / 4) = Finite (65 / 2) \<longrightarrow>
      quantile np (map env_value (rows four_risks)) (3 / 4) = Finite (65 / 2) \<and>
      high_risk_plants (create_environmental_metrics np four_risks) = 1)"
proof (intro conjI allI impI)
  show "value_col \<in> set (columns df) \<Longrightarrow>
      high_risk_plants (create_environmental_metrics np df) =
        length (filter (above (quantile np (map env_value (rows df)) (3 / 4))) (rows df))"
    by (rule high_risk_plants_eq)
next
  fix fdf
  assume a: "value_col \<in> set (columns df) \<and> filtering_logic df sc so cr = Inr fdf"
  then have "columns fdf = columns df"
    by (auto simp: filtering_logic_eq split: if_splits)
  with a have "value_col \<in> set (columns fdf)" by simp
  then show "high_risk_plants (create_environmental_metrics np fdf) =
        length (filter (above (quantile np (map env_value (rows fdf)) (3 / 4))) (rows fdf))"
    by (rule high_risk_plants_eq)
next
  show "dropna s = [] \<Longrightarrow> quantile np s (3 / 4) = NaN"
    by (rule quantile_no_value)
next
  assume ne: "dropna s \<noteq> []"
  from quantile_order_statistics [OF ne, of np]
  obtain a b where
    a: "is_kth_smallest (dropna s) (nat \<lfloor>of_nat (length (dropna s) - 1) * (3 / 4 :: rat)\<rfloor>) a"
    and b: "is_kth_smallest (dropna s)
              (min (Suc (nat \<lfloor>of_nat (length (dropna s) - 1) * (3 / 4 :: rat)\<rfloor>))
                   (length (dropna s) - 1)) b"
    and q: "quantile np s (3 / 4) =
              np_lerp np a b (of_nat (length (dropna s) - 1) * (3 / 4)
                 - of_int \<lfloor>of_nat (length (dropna s) - 1) * (3 / 4 :: rat)\<rfloor>)"
    by blast
  show "let h = of_nat (length (dropna s) - 1) * (3 / 4 :: rat);
           k = nat \<lfloor>h\<rfloor>;
           k' = min (Suc k) (length (dropna s) - 1)
       in \<exists>a b. is_kth_smallest (dropna s) k a \<and>
                (\<forall>a'. is_kth_smallest (dropna s) k a' \<longrightarrow> a' = a) \<and>
                is_kth_smallest (dropna s) k' b \<and>
                (\<forall>b'. is_kth_smallest (dropna s) k' b' \<longrightarrow> b' = b) \<and>
                quantile np s (3 / 4) = np_lerp np a b (h - of_int \<lfloor>h\<rfloor>)"
    unfolding Let_def
    using a b q is_kth_smallest_unique [OF _ a] is_kth_smallest_unique [OF _ b] by blast
next
  show v: "map env_value (rows four_risks) = [Some 10, Some 20, Some 30, Some 40]"
    by (simp add: four_risks_def env_plant_def)
  assume l: "np_lerp np 30 40 (1 / 4) = Finite (65 / 2)"
  show q: "quantile np (map env_value (rows four_risks)) (3 / 4) = Finite (65 / 2)"
    by (simp only: v quantile_four_values l)
  have "value_col \<in> set (columns four_risks)"
    by (simp add: four_risks_def env_columns_def)
  then have "high_risk_plants (create_environmental_metrics np four_risks)
      = length (filter (above (Finite (65 / 2))) (rows four_risks))"
    by (simp only: high_risk_plants_eq q)
  also have "\<dots> = 1"
    by (simp add: four_risks_def env_plant_def above_def)
  finally show "high_risk_plants (create_environmental_metrics np four_risks) = 1" .
qed

text \<open>The witness takes arithmetic without rounding, which 64 bits agree with on these
  numbers, and filters the four rows to country A: the two rows left have the values 10 and
  20, the threshold becomes 17.5, and one row counts as high risk although neither value
  exceeds the threshold 32.5 of the unfiltered table.\<close>

theorem high_risk_plants_count_witness:
  "value_col \<in> set (columns four_risks) \<and>
   filtering_logic four_risks ''A'' ''All'' (0, 1000)
     = Inr (four_risks\<lparr>rows := [env_plant 0 (Some ''A'') (Some 1) (Some 1) (Some 10),
                                env_plant 1 (Some ''A'') (Some 2) (Some 2) (Some 20)]\<rparr>) \<and>
   np_lerp exact 30 40 (1 / 4) = Finite (65 / 2) \<and>
   quantile exact (map env_value (rows four_risks)) (3 / 4) = Finite (65 / 2) \<and>
   high_risk_plants (create_environmental_metrics exact four_risks) = 1 \<and>
   quantile exact [Some 10, Some 20] (3 / 4) = Finite (35 / 2) \<and>
   high_risk_plants (create_environmental_metrics exact
       (four_risks\<lparr>rows := [env_plant 0 (Some ''A'') (Some 1) (Some 1) (Some 10),
                            env_plant 1 (Some ''A'') (Some 2) (Some 2) (Some 20)]\<rparr>)) = 1"
proof -
  have c: "value_col \<in> set (columns four_risks)"
    by (simp add: four_risks_def env_columns_def)
  have f: "filtering_logic four_risks ''A'' ''All'' (0, 1000)
     = Inr (four_risks\<lparr>rows := [env_plant 0 (Some ''A'') (Some 1) (Some 1) (Some 10),
                                env_plant 1 (Some ''A'') (Some 2) (Some 2) (Some 20)]\<rparr>)"
    by (simp add: filtering_logic_eq four_risks_def env_columns_def env_plant_def
          country_ok_def company_ok_def in_capacity_range_def)
  have l: "np_lerp exact 30 40 (1 / 4) = Finite (65 / 2)"
    by (simp add: exact_def)
  have q2: "quantile exact [Some 10, Some 20] (3 / 4) = Finite (35 / 2)"
    by (simp add: quantile_two_values exact_def)
  note t = high_risk_plants_count [of four_risks exact "''A''" "''All''" "(0, 1000)" "[Some 10]"]
  from t l have e: "quantile exact (map env_value (rows four_risks)) (3 / 4) = Finite (65 / 2) \<and>
      high_risk_plants (create_environmental_metrics exact four_risks) = 1"
    by blast
  from t c f have "high_risk_plants (create_environmental_metrics exact
       (four_risks\<lparr>rows := [env_plant 0 (Some ''A'') (Some 1) (Some 1) (Some 10),
                            env_plant 1 (Some ''A'') (Some 2) (Some 2) (Some 20)]\<rparr>))
     = length (filter (above (quantile exact (map env_value
         (rows (four_risks\<lparr>rows := [env_plant 0 (Some ''A'') (Some 1) (Some 1) (Some 10),
                            env_plant 1 (Some ''A'') (Some 2) (Some 2) (Some 20)]\<rparr>))) (3 / 4)))
         (rows (four_risks\<lparr>rows := [env_plant 0 (Some ''A'') (Some 1) (Some 1) (Some 10),
                            env_plant 1 (Some ''A'') (Some 2) (Some 2) (Some 20)]\<rparr>)))"
    by blast
  then have a: "high_risk_plants (create_environmental_metrics exact
       (four_risks\<lparr>rows := [env_plant 0 (Some ''A'') (Some 1) (Some 1) (Some 10),
                            env_plant 1 (Some ''A'') (Some 2) (Some 2) (Some 20)]\<rparr>)) = 1"
    by (simp add: env_plant_def q2 above_def)
  from c f l e q2 a show ?thesis by blast
qed

section \<open>The maps\<close>








lemma list_all_if_column: "list_all (\<lambda>c. c \<in> set (columns table)) (if_column table c)"
  by (simp add: if_column_def)







section \<open>The company charts\<close>

lemma create_company_charts_bars:
  "create_company_charts company_df = Inr (Some (fig_capacity, fig_plants, fig_countries)) \<Longrightarrow>
   bars fig_capacity = map (\<lambda>r. (company_Owner r, total_capacity r)) (take 20 (rows company_df)) \<and>
   bars fig_plants = map (\<lambda>r. (company_Owner r, number_of_plants r)) (take 20 (rows company_df)) \<and>
   bars fig_countries
     = map (\<lambda>r. (company_Owner r, number_of_countries r)) (take 20 (rows company_df))"
  by (auto simp: create_company_charts_def px_bar_def head_def Let_def
        split: if_splits sum.splits)

lemma create_company_charts_at_most_20:
  "create_company_charts company_df = Inr (Some (fig_capacity, fig_plants, fig_countries)) \<Longrightarrow>
   length (bars fig_capacity) \<le> 20 \<and> length (bars fig_plants) \<le> 20 \<and>
   length (bars fig_countries) \<le> 20"
  by (auto dest!: create_company_charts_bars)

text \<open>
  Claim C2 does not hold of the code. \<^verbatim>\<open>create_company_charts\<close> takes the first 20 rows of
  the company table as they come and draws all three charts from them; it never sorts.
  For a table in descending order of total capacity whose second company has more plants
  and more countries than the first, the chart titled by number of plants and the chart
  titled by number of countries show their bars in ascending order.
\<close>

theorem create_company_charts_not_ranked:
  "create_company_charts two_companies =
     Inr (Some (\<lparr>title = ''Top 20 Companies by Total Crude Steel Capacity (ttpa)'',
                 bars = [(Some ''X'', Some 300), (Some ''Y'', Some 200)]\<rparr>,
                \<lparr>title = ''Top 20 Companies by Number of Operating Steel Plants'',
                 bars = [(Some ''X'', Some 1), (Some ''Y'', Some 5)]\<rparr>,
                \<lparr>title = ''Top 20 Companies by Geographic Spread (Number of Countries)'',
                 bars = [(Some ''X'', Some 1), (Some ''Y'', Some 2)]\<rparr>)) \<and>
   (case create_company_charts two_companies of
      Inr (Some (fig_capacity, fig_plants, fig_countries)) \<Rightarrow>
        sorted_wrt (\<lambda>a b. b \<le> a) (dropna (map snd (bars fig_capacity))) \<and>
        \<not> sorted_wrt (\<lambda>a b. b \<le> a) (dropna (map snd (bars fig_plants))) \<and>
        \<not> sorted_wrt (\<lambda>a b. b \<le> a) (dropna (map snd (bars fig_countries)))
    | _ \<Rightarrow> False)"
  by (simp add: create_company_charts_def two_companies_def df_empty_def head_def px_bar_def
        owner_col_def dropna_def)

section \<open>Runs of \<^verbatim>\<open>main\<close> leave the base frame alone\<close>

lemma unchanged_below_refl: "unchanged_below s s"
  by (simp add: unchanged_below_def)

lemma unchanged_below_trans:
  "unchanged_below s t \<Longrightarrow> unchanged_below t u \<Longrightarrow> unchanged_below s u"
  by (auto simp: unchanged_below_def)

lemma new_frame_result:
  "new_frame d s = (a, s') \<Longrightarrow>
   a = fresh s \<and> fresh s' = Suc (fresh s) \<and> objs s' (fresh s) = Some d \<and>
   unchanged_below s s'"
  by (auto simp: new_frame_def unchanged_below_def)

lemma copy_stmt_result:
  assumes "objs s df = Some d" and "copy_stmt df s = (r, s')"
  shows "r = Inr (fresh s) \<and> objs s' (fresh s) = Some d \<and> fresh s' = Suc (fresh s) \<and>
         unchanged_below s s'"
proof -
  obtain a t where n: "new_frame (copy d) s = (a, t)" by (cases "new_frame (copy d) s")
  with assms have "r = Inr a" "s' = t" by (simp_all add: copy_stmt_def)
  with new_frame_result [OF n] show ?thesis by (simp add: copy_id)
qed

lemma country_stmt_result:
  assumes "objs s a = Some d" and "a < fresh s" and "country_stmt a sc s = (r, s')"
  shows "unchanged_below s s' \<and>
         (case country_filter d sc of
            Inl e \<Rightarrow> r = Inl e
          | Inr d' \<Rightarrow> (\<exists>a'. r = Inr a' \<and> a' < fresh s' \<and> fresh s \<le> fresh s' \<and>
                         (a' = a \<or> fresh s \<le> a') \<and> objs s' a' = Some d'))"
proof (cases "sc = ''All''")
  case True
  with assms show ?thesis
    by (auto simp: country_stmt_def country_filter_def unchanged_below_refl)
next
  case False
  show ?thesis
  proof (cases "country_filter d sc")
    case (Inl e)
    with assms False show ?thesis
      by (auto simp: country_stmt_def unchanged_below_refl)
  next
    case (Inr d')
    obtain b t where n: "new_frame d' s = (b, t)" by (cases "new_frame d' s")
    with assms False Inr have "r = Inr b" "s' = t" by (simp_all add: country_stmt_def)
    with new_frame_result [OF n] Inr show ?thesis by simp
  qed
qed

lemma company_stmt_result:
  assumes "objs s a = Some d" and "a < fresh s" and "company_stmt a so s = (r, s')"
  shows "unchanged_below s s' \<and>
         (case company_filter d so of
            Inl e \<Rightarrow> r = Inl e
          | Inr d' \<Rightarrow> (\<exists>a'. r = Inr a' \<and> a' < fresh s' \<and> fresh s \<le> fresh s' \<and>
                         (a' = a \<or> fresh s \<le> a') \<and> objs s' a' = Some d'))"
proof (cases "so = ''All''")
  case True
  with assms show ?thesis
    by (auto simp: company_stmt_def company_filter_def unchanged_below_refl)
next
  case False
  show ?thesis
  proof (cases "company_filter d so")
    case (Inl e)
    with assms False show ?thesis
      by (auto simp: company_stmt_def unchanged_below_refl)
  next
    case (Inr d')
    obtain b t where n: "new_frame d' s = (b, t)" by (cases "new_frame d' s")
    with assms False Inr have "r = Inr b" "s' = t" by (simp_all add: company_stmt_def)
    with new_frame_result [OF n] Inr show ?thesis by simp
  qed
qed

lemma capacity_stmt_result:
  assumes "objs s a = Some d" and "a < fresh s" and "capacity_stmt a cr s = (r, s')"
  shows "unchanged_below s s' \<and>
         (\<exists>a'. r = Inr a' \<and> a' < fresh s' \<and> fresh s \<le> fresh s' \<and>
            (a' = a \<or> fresh s \<le> a') \<and> objs s' a' = Some (capacity_filter d cr))"
proof (cases "capcol \<in> set (columns d)")
  case False
  with assms show ?thesis
    by (auto simp: capacity_stmt_def capacity_filter_def unchanged_below_refl)
next
  case True
  obtain b t where n: "new_frame (capacity_filter d cr) s = (b, t)"
    by (cases "new_frame (capacity_filter d cr) s")
  with assms True have "r = Inr b" "s' = t" by (simp_all add: capacity_stmt_def)
  with new_frame_result [OF n] show ?thesis by simp
qed


lemma filtering_stmts_result:
  assumes d: "objs s df = Some d" and lt: "df < fresh s"
    and run: "filtering_stmts df sc so cr s = (r, s')"
  shows "unchanged_below s s' \<and>
         (case filtering_logic d sc so cr of
            Inl e \<Rightarrow> r = Inl e
          | Inr out \<Rightarrow> (\<exists>a. r = Inr a \<and> fresh s \<le> a \<and> a < fresh s' \<and> objs s' a = Some out))"
proof -
  obtain r0 s0 where c0: "copy_stmt df s = (r0, s0)" by (cases "copy_stmt df s")
  from copy_stmt_result [OF d c0]
  have r0: "r0 = Inr (fresh s)" and o0: "objs s0 (fresh s) = Some d"
    and f0: "fresh s0 = Suc (fresh s)" and u0: "unchanged_below s s0" by simp_all
  obtain r1 s1 where c1: "country_stmt (fresh s) sc s0 = (r1, s1)"
    by (cases "country_stmt (fresh s) sc s0")
  have lt0: "fresh s < fresh s0" using f0 by simp
  from country_stmt_result [OF o0 lt0 c1]
  have u1: "unchanged_below s0 s1"
    and k1: "case country_filter d sc of
               Inl e \<Rightarrow> r1 = Inl e
             | Inr d' \<Rightarrow> (\<exists>a'. r1 = Inr a' \<and> a' < fresh s1 \<and> fresh s0 \<le> fresh s1 \<and>
                            (a' = fresh s \<or> fresh s0 \<le> a') \<and> objs s1 a' = Some d')"
    by simp_all
  show ?thesis
  proof (cases "country_filter d sc")
    case (Inl e)
    with k1 have "r1 = Inl e" by simp
    with run c0 r0 c1 have "r = Inl e" "s' = s1" by (simp_all add: filtering_stmts_def)
    with Inl u0 u1 show ?thesis
      by (auto simp: filtering_logic_def copy_id intro: unchanged_below_trans)
  next
    case (Inr d1)
    with k1 obtain a1 where a1: "r1 = Inr a1" "a1 < fresh s1" "fresh s \<le> a1" "objs s1 a1 = Some d1"
      using f0 by auto
    obtain r2 s2 where c2: "company_stmt a1 so s1 = (r2, s2)"
      by (cases "company_stmt a1 so s1")
    from company_stmt_result [OF a1(4) a1(2) c2]
    have u2: "unchanged_below s1 s2"
      and k2: "case company_filter d1 so of
                 Inl e \<Rightarrow> r2 = Inl e
               | Inr d' \<Rightarrow> (\<exists>a'. r2 = Inr a' \<and> a' < fresh s2 \<and> fresh s1 \<le> fresh s2 \<and>
                              (a' = a1 \<or> fresh s1 \<le> a') \<and> objs s2 a' = Some d')"
      by simp_all
    have u02: "unchanged_below s s2"
      using u0 u1 u2 by (blast intro: unchanged_below_trans)
    show ?thesis
    proof (cases "company_filter d1 so")
      case (Inl e)
      with k2 have "r2 = Inl e" by simp
      with run c0 r0 c1 a1 c2 have "r = Inl e" "s' = s2" by (simp_all add: filtering_stmts_def)
      with Inl Inr u02 show ?thesis
        by (simp add: filtering_logic_def copy_id)
    next
      case d2: (Inr d2)
      with k2 obtain a2 where a2: "r2 = Inr a2" "a2 < fresh s2" "fresh s \<le> a2" "objs s2 a2 = Some d2"
        using a1 by auto
      from run c0 r0 c1 a1 c2 a2 have c3: "capacity_stmt a2 cr s2 = (r, s')"
        by (simp add: filtering_stmts_def)
      from capacity_stmt_result [OF a2(4) a2(2) c3]
      obtain a3 where u3: "unchanged_below s2 s'" and a3: "r = Inr a3" "a3 < fresh s'"
        "a3 = a2 \<or> fresh s2 \<le> a3" "objs s' a3 = Some (capacity_filter d2 cr)"
        by auto
      have "fresh s \<le> fresh s2" using u02 by (simp add: unchanged_below_def)
      with a3 a2 have "fresh s \<le> a3" by auto
      moreover have "unchanged_below s s'"
        using u02 u3 by (rule unchanged_below_trans)
      moreover have "filtering_logic d sc so cr = Inr (capacity_filter d2 cr)"
        using Inr d2 by (simp add: filtering_logic_def copy_id)
      ultimately show ?thesis using a3 by simp
    qed
  qed
qed

lemma main_result:
  assumes d: "objs s df = Some d" and lt: "df < fresh s" and run: "main df sel s = (r, s')"
  shows "unchanged_below s s' \<and>
         (\<forall>v. r = Inr v \<longrightarrow>
            offered_countries v = countries d \<and> offered_companies v = companies d \<and>
            capacity_slider d = Inr (offered_slider v) \<and>
            filtering_logic d (selected_country sel) (selected_company sel)
              (of_int (fst (capacity_range sel)), of_int (snd (capacity_range sel)))
              = Inr (filtered v))"
proof (cases "capacity_slider d")
  case (Inl e)
  with d run show ?thesis
    by (auto simp: main_def unchanged_below_refl)
next
  case (Inr sl)
  let ?cr = "(of_int (fst (capacity_range sel)), of_int (snd (capacity_range sel))) :: rat \<times> rat"
  obtain q t where f: "filtering_stmts df (selected_country sel) (selected_company sel) ?cr s = (q, t)"
    by (cases "filtering_stmts df (selected_country sel) (selected_company sel) ?cr s")
  note k = filtering_stmts_result [OF d lt f]
  show ?thesis
  proof (cases "filtering_logic d (selected_country sel) (selected_company sel) ?cr")
    case (Inl e)
    with k have "q = Inl e" and u: "unchanged_below s t" by simp_all
    with d run Inr f have "r = Inl e" "s' = t" by (simp_all add: main_def)
    with u show ?thesis by simp
  next
    case out: (Inr out)
    with k obtain a where a: "q = Inr a" "objs t a = Some out" and u: "unchanged_below s t"
      by auto
    with d run Inr f have "s' = t"
      and "r = Inr \<lparr>offered_countries = countries d, offered_companies = companies d,
                    offered_slider = sl, filtered = out\<rparr>"
      by (simp_all add: main_def)
    with u out Inr show ?thesis by auto
  qed
qed


text \<open>
  Claim C7. Let \<^verbatim>\<open>df\<close> refer to the base frame in the store, and let \<^verbatim>\<open>main\<close> run any number of
  times, once for each of the user's selections. Afterwards the base frame is what it was,
  rows and values, as is every other frame that existed before; every run that got to the
  end offered the country list and the owner list enumerated from the base frame, and its
  filtered frame is the filter of the base frame under that run's selection.
\<close>

theorem session_keeps_base:
  assumes "objs s df = Some base" and "df < fresh s" and "session df sels s = (vs, s')"
  shows "objs s' df = Some base \<and>
         (\<forall>a < fresh s. objs s' a = objs s a) \<and>
         length vs = length sels \<and>
         (\<forall>i < length sels. \<forall>v. vs ! i = Inr v \<longrightarrow>
            offered_countries v = countries base \<and>
            offered_companies v = companies base \<and>
            filtering_logic base (selected_country (sels ! i)) (selected_company (sels ! i))
                (of_int (fst (capacity_range (sels ! i))), of_int (snd (capacity_range (sels ! i))))
              = Inr (filtered v))"
  using assms
proof (induction sels arbitrary: s vs s')
  case Nil
  then show ?case by simp
next
  case (Cons sel sels)
  obtain r s1 where m: "main df sel s = (r, s1)" by (cases "main df sel s")
  obtain rs s2 where t: "session df sels s1 = (rs, s2)" by (cases "session df sels s1")
  from Cons.prems(3) m t have vs: "vs = r # rs" and s': "s' = s2" by simp_all
  note k = main_result [OF Cons.prems(1) Cons.prems(2) m]
  then have u: "unchanged_below s s1" by simp
  then have d1: "objs s1 df = Some base" and lt1: "df < fresh s1" and le: "fresh s \<le> fresh s1"
    using Cons.prems(1,2) by (auto simp: unchanged_below_def)
  note ih = Cons.IH [OF d1 lt1 t]
  have "objs s' df = Some base" using ih s' by simp
  moreover have "\<forall>a < fresh s. objs s' a = objs s a"
    using ih u le s' by (auto simp: unchanged_below_def)
  moreover have "length vs = length (sel # sels)" using ih vs by simp
  moreover have "\<forall>i < length (sel # sels). \<forall>v. vs ! i = Inr v \<longrightarrow>
            offered_countries v = countries base \<and>
            offered_companies v = companies base \<and>
            filtering_logic base (selected_country ((sel # sels) ! i))
                (selected_company ((sel # sels) ! i))
                (of_int (fst (capacity_range ((sel # sels) ! i))),
                 of_int (snd (capacity_range ((sel # sels) ! i))))
              = Inr (filtered v)"
  proof (intro allI impI)
    fix i v
    assume i: "i < length (sel # sels)" and v: "vs ! i = Inr v"
    show "offered_countries v = countries base \<and>
            offered_companies v = companies base \<and>
            filtering_logic base (selected_country ((sel # sels) ! i))
                (selected_company ((sel # sels) ! i))
                (of_int (fst (capacity_range ((sel # sels) ! i))),
                 of_int (snd (capacity_range ((sel # sels) ! i))))
              = Inr (filtered v)"
    proof (cases i)
      case 0
      with v vs have "r = Inr v" by simp
      with k 0 show ?thesis by simp
    next
      case (Suc j)
      with i v vs have "j < length sels" "rs ! j = Inr v" by simp_all
      with ih Suc show ?thesis by simp
    qed
  qed
  ultimately show ?case by blast
qed


text \<open>The witness runs \<^verbatim>\<open>main\<close> twice on a store that holds the three plants at address 0:
  first with country A selected, then with all countries. Both runs offer the countries
  and owners of the base frame; the second shows all three rows again.\<close>

theorem session_keeps_base_witness:
  "objs one_frame_store 0 = Some three_plants \<and>
   0 < fresh one_frame_store \<and>
   map (map_sum id (\<lambda>v. (offered_countries v, offered_companies v, map idx (rows (filtered v)))))
       (fst (session 0 two_selections one_frame_store))
     = [Inr ([''All'', ''A'', ''B''], [''All'', ''X'', ''Y''], [0, 1]),
        Inr ([''All'', ''A'', ''B''], [''All'', ''X'', ''Y''], [0, 1, 2])] \<and>
   objs (snd (session 0 two_selections one_frame_store)) 0 = Some three_plants \<and>
   length (fst (session 0 two_selections one_frame_store)) = length two_selections"
proof -
  have h1: "objs one_frame_store 0 = Some three_plants"
    by (simp add: one_frame_store_def)
  have h2: "0 < fresh one_frame_store"
    by (simp add: one_frame_store_def)
  have h3: "session 0 two_selections one_frame_store
              = (fst (session 0 two_selections one_frame_store),
                 snd (session 0 two_selections one_frame_store))"
    by simp
  have runs: "map (map_sum id (\<lambda>v. (offered_countries v, offered_companies v, map idx (rows (filtered v)))))
       (fst (session 0 two_selections one_frame_store))
     = [Inr ([''All'', ''A'', ''B''], [''All'', ''X'', ''Y''], [0, 1]),
        Inr ([''All'', ''A'', ''B''], [''All'', ''X'', ''Y''], [0, 1, 2])]"
    by code_simp
  from session_keeps_base [OF h1 h2 h3]
  have "objs (snd (session 0 two_selections one_frame_store)) 0 = Some three_plants"
    and "length (fst (session 0 two_selections one_frame_store)) = length two_selections"
    by simp_all
  with h1 h2 runs show ?thesis by simp
qed

end
